theory Spec2Isabelle
  imports Main
begin

section \<open>LandingPage: search state and URL synchronisation\<close>

text \<open>
  The development embeds the state-bearing logic of
  \<^verbatim>\<open>src/components/LandingPage.tsx\<close>: the four \<^verbatim>\<open>useState\<close> cells, the
  reading of the URL query parameters (\<^verbatim>\<open>hasSearchParams\<close>,
  \<^verbatim>\<open>performInitialSearch\<close>, the \<^verbatim>\<open>useEffect\<close>), the asynchronous
  \<^verbatim>\<open>handleSearch\<close> and the three conditions that decide what the view renders.

  JavaScript strings are modelled as \<^typ>\<open>string\<close>, read as the UTF-8 bytes of the text.
  A value of type \<^verbatim>\<open>string | null | undefined\<close> is a \<^typ>\<open>string option\<close>:
  \<^term>\<open>None\<close> stands for \<^verbatim>\<open>null\<close> and \<^verbatim>\<open>undefined\<close> (the code never tells them
  apart), \<^term>\<open>Some []\<close> for the empty string.
\<close>

subsection \<open>Truthiness and the URL query parameters\<close>

text \<open>
  \<^verbatim>\<open>x || y\<close> and \<^verbatim>\<open>x && y\<close> test truthiness: \<^verbatim>\<open>null\<close>, \<^verbatim>\<open>undefined\<close> and
  the empty string are falsy, every other string is truthy.
\<close>

fun truthy :: "string option \<Rightarrow> bool" where
  "truthy None = False"
| "truthy (Some s) = (s \<noteq> [])"

text \<open>
  \<^verbatim>\<open>useSearchParams()\<close> gives the name/value pairs of the query string in order;
  \<^verbatim>\<open>get(name)\<close> returns the first value stored under the name, or \<^verbatim>\<open>null\<close>.
\<close>

type_synonym url_params = "(string \<times> string) list"

definition searchParams_get :: "url_params \<Rightarrow> string \<Rightarrow> string option" where
  "searchParams_get sp name = map_of sp name"

text \<open>Lines 50-58.\<close>

definition hasSearchParams :: "url_params \<Rightarrow> bool" where
  "hasSearchParams sp =
     (truthy (searchParams_get sp ''term'') \<or>
      truthy (searchParams_get sp ''domain'') \<or>
      truthy (searchParams_get sp ''tag'') \<or>
      truthy (searchParams_get sp ''year'') \<or>
      truthy (searchParams_get sp ''region''))"

subsection \<open>Search criteria\<close>

text \<open>The interface \<^verbatim>\<open>SearchParams\<close> of lines 27-33.\<close>

record SearchParams =
  query :: string
  domain :: "string option"
  tag :: "string option"
  year :: "string option"
  region :: "string option"

text \<open>\<^verbatim>\<open>query || ''\<close> and \<^verbatim>\<open>domain || undefined\<close> of lines 70-74.\<close>

definition or_empty :: "string option \<Rightarrow> string" where
  "or_empty v = (case v of None \<Rightarrow> [] | Some s \<Rightarrow> if truthy v then s else [])"

definition or_undefined :: "string option \<Rightarrow> string option" where
  "or_undefined v = (if truthy v then v else None)"

text \<open>
  Lines 61-77. The result is the argument \<^verbatim>\<open>handleSearch\<close> is called with, or
  \<^term>\<open>None\<close> when the guard of line 68 fails and nothing is called.
\<close>

definition performInitialSearch :: "url_params \<Rightarrow> SearchParams option" where
  "performInitialSearch sp =
     (let q = searchParams_get sp ''term'';
          d = searchParams_get sp ''domain'';
          t = searchParams_get sp ''tag'';
          y = searchParams_get sp ''year'';
          r = searchParams_get sp ''region''
      in if truthy q \<or> truthy d \<or> truthy t \<or> truthy y \<or> truthy r
         then Some \<lparr>query = or_empty q, domain = or_undefined d, tag = or_undefined t,
                    year = or_undefined y, region = or_undefined r\<rparr>
         else None)"

text \<open>The body of the effect of lines 80-84, run on mount and when the parameters change.\<close>

definition useEffect_searchParams :: "url_params \<Rightarrow> SearchParams option" where
  "useEffect_searchParams sp = (if hasSearchParams sp then performInitialSearch sp else None)"

subsection \<open>The query string\<close>

text \<open>
  \<^verbatim>\<open>...(domain && { domain })\<close>: a falsy operand spreads nothing, a truthy one
  contributes the single property.
\<close>

definition spread_field :: "string \<Rightarrow> string option \<Rightarrow> url_params" where
  "spread_field name v =
     (case v of None \<Rightarrow> [] | Some s \<Rightarrow> if truthy v then [(name, s)] else [])"

text \<open>
  The object literal of lines 93-99, as the list of pairs \<^verbatim>\<open>new URLSearchParams\<close>
  holds (own properties in insertion order).
\<close>

definition handleSearch_params :: "SearchParams \<Rightarrow> url_params" where
  "handleSearch_params c =
     (''term'', query c) #
     spread_field ''domain'' (domain c) @
     spread_field ''tag'' (tag c) @
     spread_field ''year'' (year c) @
     spread_field ''region'' (region c)"

text \<open>
  \<^verbatim>\<open>URLSearchParams.prototype.toString\<close> is the
  \<^verbatim>\<open>application/x-www-form-urlencoded\<close> serialiser: ASCII letters and digits and
  \<^verbatim>\<open>* - . _\<close> stay, a space becomes \<^verbatim>\<open>+\<close>, every other byte becomes \<^verbatim>\<open>%\<close> and two
  upper-case hexadecimal digits; pairs are written \<^verbatim>\<open>name=value\<close> and joined by \<^verbatim>\<open>&\<close>.
\<close>

definition hex_digit :: "nat \<Rightarrow> char" where
  "hex_digit n = ''0123456789ABCDEF'' ! (n mod 16)"

definition urlencode_keeps :: "char \<Rightarrow> bool" where
  "urlencode_keeps c =
     (c \<in> set ''ABCDEFGHIJKLMNOPQRSTUVWXYZabcdefghijklmnopqrstuvwxyz0123456789*-._'')"

definition urlencode_byte :: "char \<Rightarrow> string" where
  "urlencode_byte c =
     (if c = CHR '' '' then ''+''
      else if urlencode_keeps c then [c]
      else [CHR ''%'', hex_digit (of_char c div 16), hex_digit (of_char c mod 16)])"

definition urlencode :: "string \<Rightarrow> string" where
  "urlencode s = concat (map urlencode_byte s)"

fun toString :: "url_params \<Rightarrow> string" where
  "toString [] = []"
| "toString [(n, v)] = urlencode n @ ''='' @ urlencode v"
| "toString ((n, v) # ps) = urlencode n @ ''='' @ urlencode v @ ''&'' @ toString ps"

subsection \<open>Component state and the router\<close>

text \<open>The four \<^verbatim>\<open>useState\<close> cells of lines 40-43, with their initial values.\<close>

record 'r SearchState =
  isSearching :: bool
  error :: "string option"
  results :: "'r list"
  hasSearched :: bool

definition initial_state :: "'r SearchState" where
  "initial_state = \<lparr>isSearching = False, error = None, results = [], hasSearched = False\<rparr>"

text \<open>
  The part of the browser that \<^verbatim>\<open>router.push\<close> acts on: the session history (current
  entry first, each entry the path and query of its URL) and the vertical scroll offset.
  \<^verbatim>\<open>router.push(href, { scroll })\<close> of \<^verbatim>\<open>next/navigation\<close> navigates to \<^verbatim>\<open>href\<close>: when
  \<^verbatim>\<open>href\<close> differs from the URL shown it adds an entry to the history stack, when it is
  the URL shown it keeps the current entry in place; it scrolls to the top unless
  \<^verbatim>\<open>scroll\<close> is false.
\<close>

record router_state =
  history :: "string list"
  scrollY :: nat

definition router_push :: "string \<Rightarrow> bool \<Rightarrow> router_state \<Rightarrow> router_state" where
  "router_push href scroll b =
     b\<lparr>history :=
         (case history b of
            [] \<Rightarrow> [href]
          | cur # older \<Rightarrow> if cur = href then cur # older else href # cur # older),
       scrollY := (if scroll then 0 else scrollY b)\<rparr>"

subsection \<open>handleSearch\<close>

text \<open>
  Lines 87-90: the four setters that run before the \<^verbatim>\<open>try\<close> block.
\<close>

definition handleSearch_begin :: "'r SearchState \<Rightarrow> 'r SearchState" where
  "handleSearch_begin st =
     st\<lparr>error := None, isSearching := True, results := [], hasSearched := True\<rparr>"

text \<open>
  What the awaited promises of lines 103 and 107 can do: \<^verbatim>\<open>fetch\<close> rejects, or it
  resolves to a response with its \<^verbatim>\<open>ok\<close> flag; the body of an ok response either
  fails to parse (\<^term>\<open>None\<close>) or parses to a list of results. The body of a response
  that is not ok is never read.
\<close>

datatype 'r outcome = Rejected | Responded bool "'r list option"

definition catch_block :: "'r SearchState \<Rightarrow> 'r SearchState" where
  "catch_block st = st\<lparr>error := Some ''Search failed. Please try again.''\<rparr>"

definition finally_block :: "'r SearchState \<Rightarrow> 'r SearchState" where
  "finally_block st = st\<lparr>isSearching := False\<rparr>"

text \<open>Lines 103-113: what the call does to the state once its promises have settled.\<close>

fun handleSearch_settle :: "'r outcome \<Rightarrow> 'r SearchState \<Rightarrow> 'r SearchState" where
  "handleSearch_settle Rejected st = finally_block (catch_block st)"
| "handleSearch_settle (Responded ok body) st =
     (if \<not> ok then finally_block (catch_block st)
      else case body of
             None \<Rightarrow> finally_block (catch_block st)
           | Some data \<Rightarrow> finally_block (st\<lparr>results := data\<rparr>))"

text \<open>One call of \<^verbatim>\<open>handleSearch\<close> run from start to settlement with nothing in between.\<close>

definition handleSearch :: "'r outcome \<Rightarrow> 'r SearchState \<Rightarrow> 'r SearchState" where
  "handleSearch oc st = handleSearch_settle oc (handleSearch_begin st)"

subsection \<open>The page as a transition system\<close>

text \<open>
  The component instance together with what it reads and writes: the state cells, the
  value of \<^verbatim>\<open>useSearchParams()\<close>, the router, and the calls of \<^verbatim>\<open>handleSearch\<close>
  that are still awaiting (call number and request URL).
\<close>

record 'r page =
  state :: "'r SearchState"
  searchParams :: url_params
  router :: router_state
  pending :: "(nat \<times> string) list"
  nextCall :: nat

text \<open>Lines 87-103: the synchronous part of a call, up to the first \<^verbatim>\<open>await\<close>.\<close>

definition handleSearch_start :: "SearchParams \<Rightarrow> 'r page \<Rightarrow> 'r page" where
  "handleSearch_start c p =
     (let params = handleSearch_params c
      in p\<lparr>state := handleSearch_begin (state p),
           router := router_push (''/?'' @ toString params) False (router p),
           pending := pending p @ [(nextCall p, ''/api/search?'' @ toString params)],
           nextCall := Suc (nextCall p)\<rparr>)"

definition run_effect :: "'r page \<Rightarrow> 'r page" where
  "run_effect p =
     (case useEffect_searchParams (searchParams p) of
        None \<Rightarrow> p
      | Some c \<Rightarrow> handleSearch_start c p)"

definition mount :: "url_params \<Rightarrow> router_state \<Rightarrow> 'r page" where
  "mount sp b =
     run_effect \<lparr>state = initial_state, searchParams = sp, router = b,
                 pending = [], nextCall = 0\<rparr>"

text \<open>
  Events of the page: the form calls \<^verbatim>\<open>onSearch\<close>; the query parameters change and the
  effect runs; a pending call settles. A call changes the state only in its synchronous
  part and after its last \<^verbatim>\<open>await\<close>, so one event per settlement is enough.
\<close>

datatype 'r event =
    OnSearch SearchParams
  | ParamsChanged url_params
  | Settled nat "'r outcome"

fun step :: "'r page \<Rightarrow> 'r event \<Rightarrow> 'r page option" where
  "step p (OnSearch c) = Some (handleSearch_start c p)"
| "step p (ParamsChanged sp) = Some (run_effect (p\<lparr>searchParams := sp\<rparr>))"
| "step p (Settled i oc) =
     (case map_of (pending p) i of
        None \<Rightarrow> None
      | Some url \<Rightarrow>
          Some (p\<lparr>state := handleSearch_settle oc (state p),
                  pending := filter (\<lambda>k. fst k \<noteq> i) (pending p)\<rparr>))"

fun exec :: "'r page \<Rightarrow> 'r event list \<Rightarrow> 'r page option" where
  "exec p [] = Some p"
| "exec p (e # es) = (case step p e of None \<Rightarrow> None | Some p' \<Rightarrow> exec p' es)"

subsection \<open>What the view renders\<close>

text \<open>Line 117.\<close>

definition showCenteredSearch :: "'r SearchState \<Rightarrow> url_params \<Rightarrow> bool" where
  "showCenteredSearch st sp = (\<not> hasSearched st \<and> \<not> hasSearchParams sp)"

text \<open>Line 173: the condition under which \<^verbatim>\<open>SearchResults\<close> is rendered.\<close>

definition showSearchResults :: "url_params \<Rightarrow> bool" where
  "showSearchResults sp = hasSearchParams sp"

text \<open>Line 182: the condition under which \<^verbatim>\<open>IntroSection\<close> and \<^verbatim>\<open>PostList\<close> are rendered.\<close>

definition showIntroAndPosts :: "'r SearchState \<Rightarrow> url_params \<Rightarrow> bool" where
  "showIntroAndPosts st sp =
     (showCenteredSearch st sp \<or> (length (results st) = 0 \<and> \<not> isSearching st))"

text \<open>
  Lines 122-123: the class of the search section, which centres it or makes it compact.
\<close>

definition searchSection_className :: "'r SearchState \<Rightarrow> url_params \<Rightarrow> string" where
  "searchSection_className st sp =
     ''w-full '' @ (if showCenteredSearch st sp then ''flex flex-col justify-center'' else ''pt-8'')"

section \<open>Properties\<close>

subsection \<open>Auxiliary facts\<close>

lemma urlencode_byte_nonempty: "urlencode_byte c \<noteq> []"
  by (simp add: urlencode_byte_def)

lemma urlencode_Nil_iff: "urlencode v = [] \<longleftrightarrow> v = []"
  by (cases v) (simp_all add: urlencode_def urlencode_byte_nonempty)

lemma map_of_spread_field_same:
  "map_of (spread_field n v) n = (if truthy v then v else None)"
  by (cases v) (simp_all add: spread_field_def)

lemma map_of_spread_field_other:
  "k \<noteq> n \<Longrightarrow> map_of (spread_field n v) k = None"
  by (cases v) (simp_all add: spread_field_def)

lemma set_spread_field:
  "(k, w) \<in> set (spread_field n v) \<longleftrightarrow> k = n \<and> v = Some w \<and> w \<noteq> []"
  by (cases v) (auto simp add: spread_field_def)

lemma params_get_term: "searchParams_get (handleSearch_params c) ''term'' = Some (query c)"
  by (simp add: searchParams_get_def handleSearch_params_def)

lemma params_get_domain:
  "searchParams_get (handleSearch_params c) ''domain'' =
     (if truthy (domain c) then domain c else None)"
  by (simp add: searchParams_get_def handleSearch_params_def map_add_def
      map_of_spread_field_same map_of_spread_field_other split: option.split)

lemma params_get_tag:
  "searchParams_get (handleSearch_params c) ''tag'' = (if truthy (tag c) then tag c else None)"
  by (simp add: searchParams_get_def handleSearch_params_def map_add_def
      map_of_spread_field_same map_of_spread_field_other split: option.split)

lemma params_get_year:
  "searchParams_get (handleSearch_params c) ''year'' =
     (if truthy (year c) then year c else None)"
  by (simp add: searchParams_get_def handleSearch_params_def map_add_def
      map_of_spread_field_same map_of_spread_field_other split: option.split)

lemma params_get_region:
  "searchParams_get (handleSearch_params c) ''region'' =
     (if truthy (region c) then region c else None)"
  by (simp add: searchParams_get_def handleSearch_params_def map_add_def
      map_of_spread_field_same map_of_spread_field_other split: option.split)

lemma params_pairs:
  "(n, v) \<in> set (handleSearch_params c) \<Longrightarrow>
     n \<in> {''term'', ''domain'', ''tag'', ''year'', ''region''} \<and>
     (n \<noteq> ''term'' \<longrightarrow> v \<noteq> [] \<and> urlencode v \<noteq> [])"
  by (auto simp add: handleSearch_params_def set_spread_field urlencode_Nil_iff)

lemma toString_Cons:
  "toString ((n, v) # ps) =
     urlencode n @ ''='' @ urlencode v @
     concat (map (\<lambda>(n, v). ''&'' @ urlencode n @ ''='' @ urlencode v) ps)"
  by (induction ps arbitrary: n v) auto

lemma urlencode_names:
  "urlencode ''term'' = ''term''" "urlencode ''domain'' = ''domain''"
  "urlencode ''tag'' = ''tag''" "urlencode ''year'' = ''year''"
  "urlencode ''region'' = ''region''"
  by (simp_all add: urlencode_def urlencode_byte_def urlencode_keeps_def)

lemma toString_params_shape:
  "toString (handleSearch_params c) =
     ''term='' @ urlencode (query c) @
     concat (map (\<lambda>(n, v). ''&'' @ n @ ''='' @ urlencode v) (tl (handleSearch_params c)))"
  by (cases "domain c"; cases "tag c"; cases "year c"; cases "region c")
     (simp_all add: handleSearch_params_def spread_field_def toString_Cons urlencode_names)

lemma params_eq:
  "handleSearch_params c =
     (''term'', query c) #
     [(n, v). (n, Some v) \<leftarrow> [(''domain'', domain c), (''tag'', tag c),
                                (''year'', year c), (''region'', region c)], v \<noteq> []]"
  by (cases "domain c"; cases "tag c"; cases "year c"; cases "region c")
     (simp_all add: handleSearch_params_def spread_field_def)

lemma hd_history_router_push: "hd (history (router_push href scroll b)) = href"
  by (simp add: router_push_def split: list.split)

lemma history_router_push:
  "history (router_push href scroll b) =
     (if history b \<noteq> [] \<and> hd (history b) = href then history b else href # history b)"
  by (simp add: router_push_def split: list.split)

lemma scrollY_router_push:
  "scrollY (router_push href scroll b) = (if scroll then 0 else scrollY b)"
  by (simp add: router_push_def)

lemma router_handleSearch_start:
  "router (handleSearch_start c p) =
     router_push (''/?'' @ toString (handleSearch_params c)) False (router p)"
  by (simp add: handleSearch_start_def Let_def)

lemma handleSearch_settle_isSearching: "isSearching (handleSearch_settle oc st) = False"
  by (cases oc) (simp_all add: finally_block_def split: option.split)

lemma handleSearch_settle_hasSearched:
  "hasSearched (handleSearch_settle oc st) = hasSearched st"
  by (cases oc) (simp_all add: finally_block_def catch_block_def split: option.split)

lemma falsy_iff: "\<not> truthy x \<longleftrightarrow> x = None \<or> x = Some []"
  by (cases x) simp_all

lemma truthy_iff: "truthy x \<longleftrightarrow> (\<exists>v. x = Some v \<and> v \<noteq> [])"
  by (cases x) simp_all

lemma hasSearchParams_iff:
  "hasSearchParams sp \<longleftrightarrow>
     (\<exists>n \<in> {''term'', ''domain'', ''tag'', ''year'', ''region''}.
        \<exists>v. searchParams_get sp n = Some v \<and> v \<noteq> [])"
  by (simp add: hasSearchParams_def truthy_iff)

lemma or_undefined_Some_iff: "or_undefined x = Some v \<longleftrightarrow> x = Some v \<and> v \<noteq> []"
  by (cases x) (auto simp add: or_undefined_def)

lemma or_empty_eq: "or_empty x = (case x of None \<Rightarrow> [] | Some v \<Rightarrow> v)"
  by (cases x) (simp_all add: or_empty_def)

lemma useEffect_searchParams_None_iff:
  "useEffect_searchParams sp = None \<longleftrightarrow> \<not> hasSearchParams sp"
  by (simp add: useEffect_searchParams_def performInitialSearch_def Let_def hasSearchParams_def)

lemma useEffect_searchParams_Some:
  "hasSearchParams sp \<Longrightarrow>
   useEffect_searchParams sp =
     Some \<lparr>query = or_empty (searchParams_get sp ''term''),
           domain = or_undefined (searchParams_get sp ''domain''),
           tag = or_undefined (searchParams_get sp ''tag''),
           year = or_undefined (searchParams_get sp ''year''),
           region = or_undefined (searchParams_get sp ''region'')\<rparr>"
  by (simp add: useEffect_searchParams_def performInitialSearch_def Let_def hasSearchParams_def)

lemma step_keeps_hasSearched:
  "step p e = Some p' \<Longrightarrow> hasSearched (state p) \<Longrightarrow> hasSearched (state p')"
  by (cases e)
     (auto simp add: handleSearch_start_def handleSearch_begin_def run_effect_def Let_def
        handleSearch_settle_hasSearched split: option.splits)

lemma exec_keeps_hasSearched:
  "exec p evs = Some p' \<Longrightarrow> hasSearched (state p) \<Longrightarrow> hasSearched (state p')"
proof (induction evs arbitrary: p)
  case Nil
  then show ?case by simp
next
  case (Cons e es)
  then obtain q where q: "step p e = Some q" and rest: "exec q es = Some p'"
    by (auto split: option.splits)
  from q Cons.prems(2) have "hasSearched (state q)"
    by (rule step_keeps_hasSearched)
  with rest show ?case
    by (rule Cons.IH)
qed


lemma handleSearch_start_pending: "pending (handleSearch_start c p) \<noteq> []"
  by (simp add: handleSearch_start_def Let_def)

lemma run_effect_searching:
  "isSearching (state p) \<longrightarrow> pending p \<noteq> [] \<Longrightarrow>
   isSearching (state (run_effect p)) \<longrightarrow> pending (run_effect p) \<noteq> []"
  by (auto simp add: run_effect_def handleSearch_start_pending split: option.splits)

lemma step_searching:
  "step p e = Some p' \<Longrightarrow> isSearching (state p) \<longrightarrow> pending p \<noteq> [] \<Longrightarrow>
   isSearching (state p') \<longrightarrow> pending p' \<noteq> []"
proof (cases e)
  case (OnSearch c)
  assume "step p e = Some p'"
  with OnSearch show ?thesis
    by (auto simp add: handleSearch_start_pending)
next
  case (ParamsChanged sp)
  assume s: "step p e = Some p'" and i: "isSearching (state p) \<longrightarrow> pending p \<noteq> []"
  from i have "isSearching (state (p\<lparr>searchParams := sp\<rparr>)) \<longrightarrow>
      pending (p\<lparr>searchParams := sp\<rparr>) \<noteq> []"
    by simp
  then have "isSearching (state (run_effect (p\<lparr>searchParams := sp\<rparr>))) \<longrightarrow>
      pending (run_effect (p\<lparr>searchParams := sp\<rparr>)) \<noteq> []"
    by (rule run_effect_searching)
  with s ParamsChanged show ?thesis by simp
next
  case (Settled i oc)
  assume "step p e = Some p'"
  with Settled show ?thesis
    by (auto simp add: handleSearch_settle_isSearching split: option.splits)
qed

lemma exec_searching:
  "exec p evs = Some p' \<Longrightarrow> isSearching (state p) \<longrightarrow> pending p \<noteq> [] \<Longrightarrow>
   isSearching (state p') \<longrightarrow> pending p' \<noteq> []"
proof (induction evs arbitrary: p)
  case Nil
  then show ?case by simp
next
  case (Cons e es)
  then obtain q where q: "step p e = Some q" and rest: "exec q es = Some p'"
    by (auto split: option.splits)
  from q Cons.prems(2) have "isSearching (state q) \<longrightarrow> pending q \<noteq> []"
    by (rule step_searching)
  with rest show ?case
    by (rule Cons.IH)
qed

lemma mount_searching:
  "isSearching (state (mount sp b :: 'r page)) \<longrightarrow> pending (mount sp b :: 'r page) \<noteq> []"
  unfolding mount_def
  by (rule run_effect_searching) (simp add: initial_state_def)

subsection \<open>The query string holds the search text always, the filters only when non-empty\<close>

text \<open>
  C1 says that the query string built by a search never contains an empty-valued pair,
  the search text included. The optional filters are guarded by \<^verbatim>\<open>&&\<close>, but line 94
  puts \<^verbatim>\<open>term: query\<close> into the object unconditionally: a search with an empty text
  serialises \<^verbatim>\<open>term=\<close>.
\<close>

theorem handleSearch_params_empty_term_counterexample:
  "(''term'', '''') \<in> set (handleSearch_params
      \<lparr>query = '''', domain = Some ''law'', tag = None, year = Some '''', region = None\<rparr>) \<and>
   toString (handleSearch_params
      \<lparr>query = '''', domain = Some ''law'', tag = None, year = Some '''', region = None\<rparr>)
     = ''term=&domain=law''"
  by (simp add: handleSearch_params_def spread_field_def urlencode_def urlencode_byte_def
      urlencode_keeps_def)

text \<open>
  C1, amended: for every combination of criteria the list of parameters is \<^verbatim>\<open>term\<close>, always
  and with the search text as its value even when that is empty, followed in the order
  \<^verbatim>\<open>domain\<close>, \<^verbatim>\<open>tag\<close>, \<^verbatim>\<open>year\<close>, \<^verbatim>\<open>region\<close> by exactly those of the four whose value is a
  non-empty string, each once and with that value. The query string is \<^verbatim>\<open>term=\<close> and the
  encoded text, then \<^verbatim>\<open>&name=value\<close> for each of these filters. No pair other than
  \<^verbatim>\<open>term\<close> has an empty value, before or after encoding, and the same string is used for the
  pushed URL and for the request.
\<close>

theorem handleSearch_params_fields:
  "handleSearch_params c =
     (''term'', query c) #
     [(n, v). (n, Some v) \<leftarrow> [(''domain'', domain c), (''tag'', tag c),
                                (''year'', year c), (''region'', region c)], v \<noteq> []] \<and>
   toString (handleSearch_params c) =
     ''term='' @ urlencode (query c) @
     concat (map (\<lambda>(n, v). ''&'' @ n @ ''='' @ urlencode v)
       [(n, v). (n, Some v) \<leftarrow> [(''domain'', domain c), (''tag'', tag c),
                                  (''year'', year c), (''region'', region c)], v \<noteq> []]) \<and>
   searchParams_get (handleSearch_params c) ''term'' = Some (query c) \<and>
   searchParams_get (handleSearch_params c) ''domain'' =
     (if truthy (domain c) then domain c else None) \<and>
   searchParams_get (handleSearch_params c) ''tag'' =
     (if truthy (tag c) then tag c else None) \<and>
   searchParams_get (handleSearch_params c) ''year'' =
     (if truthy (year c) then year c else None) \<and>
   searchParams_get (handleSearch_params c) ''region'' =
     (if truthy (region c) then region c else None) \<and>
   (\<forall>(n, v) \<in> set (handleSearch_params c).
      n \<in> {''term'', ''domain'', ''tag'', ''year'', ''region''} \<and>
      (n \<noteq> ''term'' \<longrightarrow> v \<noteq> [] \<and> urlencode v \<noteq> [])) \<and>
   toString (handleSearch_params c) =
     ''term='' @ urlencode (query c) @
     concat (map (\<lambda>(n, v). ''&'' @ n @ ''='' @ urlencode v) (tl (handleSearch_params c))) \<and>
   hd (history (router (handleSearch_start c p))) = ''/?'' @ toString (handleSearch_params c) \<and>
   snd (last (pending (handleSearch_start c p))) =
     ''/api/search?'' @ toString (handleSearch_params c)"
proof -
  let ?filters = "[(n, v). (n, Some v) \<leftarrow> [(''domain'', domain c), (''tag'', tag c),
                                (''year'', year c), (''region'', region c)], v \<noteq> []]"
  have list: "handleSearch_params c = (''term'', query c) # ?filters"
    by (rule params_eq)
  have "tl (handleSearch_params c) = ?filters"
    by (simp only: list list.sel)
  with toString_params_shape [of c]
  have str: "toString (handleSearch_params c) =
     ''term='' @ urlencode (query c) @
     concat (map (\<lambda>(n, v). ''&'' @ n @ ''='' @ urlencode v) ?filters)"
    by simp
  have pairs: "\<forall>(n, v) \<in> set (handleSearch_params c).
      n \<in> {''term'', ''domain'', ''tag'', ''year'', ''region''} \<and>
      (n \<noteq> ''term'' \<longrightarrow> v \<noteq> [] \<and> urlencode v \<noteq> [])"
    using params_pairs [of _ _ c] by blast
  have url: "hd (history (router (handleSearch_start c p))) =
      ''/?'' @ toString (handleSearch_params c)"
    by (simp only: router_handleSearch_start hd_history_router_push)
  have req: "snd (last (pending (handleSearch_start c p))) =
      ''/api/search?'' @ toString (handleSearch_params c)"
    by (simp add: handleSearch_start_def Let_def)
  show ?thesis
    using list str params_get_term [of c] params_get_domain [of c] params_get_tag [of c]
      params_get_year [of c] params_get_region [of c] pairs toString_params_shape [of c]
      url req
    by blast
qed

theorem handleSearch_params_fields_witness:
  "handleSearch_params
     \<lparr>query = ''a b'', domain = Some '''', tag = None, year = Some ''2020'', region = None\<rparr>
     = [(''term'', ''a b''), (''year'', ''2020'')] \<and>
   ''year'' \<noteq> ''term'' \<and> urlencode ''2020'' \<noteq> [] \<and>
   toString (handleSearch_params
     \<lparr>query = ''a b'', domain = Some '''', tag = None, year = Some ''2020'', region = None\<rparr>)
     = ''term=a+b&year=2020''"
  using handleSearch_params_fields
    [of "\<lparr>query = ''a b'', domain = Some '''', tag = None, year = Some ''2020'', region = None\<rparr>"]
  by (simp add: handleSearch_params_def spread_field_def urlencode_def urlencode_byte_def
      urlencode_keeps_def)

subsection \<open>The loading flag is cleared when a call settles\<close>

text \<open>
  C2: whatever the outcome of a call of \<^verbatim>\<open>handleSearch\<close> (a parsed list, a response that is
  not ok, a rejected \<^verbatim>\<open>fetch\<close>, a body that does not parse), \<^verbatim>\<open>isSearching\<close> is false
  once the call has settled: in whatever state the settlement finds the component, and so
  also for a call run from start to end.
\<close>

theorem handleSearch_clears_isSearching:
  "isSearching (handleSearch_settle oc st) = False \<and>
   isSearching (handleSearch oc st) = False"
  by (simp add: handleSearch_def handleSearch_settle_isSearching)

subsection \<open>Every failure sets the same error and leaves the results alone\<close>

text \<open>
  C3 says that every call of \<^verbatim>\<open>handleSearch\<close> that ends in a failure leaves the error
  message set and the results empty. The \<^verbatim>\<open>catch\<close> block of lines 109-110 sets the error
  and never writes \<^verbatim>\<open>results\<close>: they are empty only as far as nothing has stored any since
  line 89 emptied them. When two calls overlap (here the form's call and the call the
  effect makes once the pushed parameters arrive), the first stores its list and the
  second is rejected, the page ends with the error message and the first call's results.
\<close>

theorem handleSearch_overlap_failure_counterexample:
  "map_option state
     (exec (mount [] \<lparr>history = [''/''], scrollY = 0\<rparr> :: nat page)
        [OnSearch \<lparr>query = ''a'', domain = None, tag = None, year = None, region = None\<rparr>,
         ParamsChanged [(''term'', ''a'')],
         Settled 0 (Responded True (Some [1])),
         Settled 1 Rejected]) =
   Some \<lparr>isSearching = False, error = Some ''Search failed. Please try again.'',
         results = [1], hasSearched = True\<rparr>"
  by (simp add: mount_def run_effect_def useEffect_searchParams_def hasSearchParams_def
      performInitialSearch_def searchParams_get_def or_empty_def or_undefined_def
      handleSearch_start_def handleSearch_begin_def Let_def catch_block_def
      finally_block_def initial_state_def)

text \<open>
  C3, amended: a call of \<^verbatim>\<open>handleSearch\<close> that ends with a rejected \<^verbatim>\<open>fetch\<close>, with a response
  that is not ok (whatever its body) or with a body that fails to parse is treated in one
  and the same way: in whatever state the failure finds the component, the error becomes
  \<^verbatim>\<open>Search failed. Please try again.\<close>, \<^verbatim>\<open>isSearching\<close> becomes false, and the results
  and \<^verbatim>\<open>hasSearched\<close> are left as they are. For a call that runs from its start to its
  failure with no other call settling in between, the resulting state is therefore the
  same whatever the state before: that error, empty results, not searching.
\<close>

theorem handleSearch_failure_state:
  "handleSearch Rejected st =
     \<lparr>isSearching = False, error = Some ''Search failed. Please try again.'',
      results = [], hasSearched = True\<rparr> \<and>
   handleSearch (Responded False body) st =
     \<lparr>isSearching = False, error = Some ''Search failed. Please try again.'',
      results = [], hasSearched = True\<rparr> \<and>
   handleSearch (Responded True None) st =
     \<lparr>isSearching = False, error = Some ''Search failed. Please try again.'',
      results = [], hasSearched = True\<rparr> \<and>
   handleSearch_settle Rejected st =
     st\<lparr>error := Some ''Search failed. Please try again.'', isSearching := False\<rparr> \<and>
   handleSearch_settle (Responded False body) st =
     st\<lparr>error := Some ''Search failed. Please try again.'', isSearching := False\<rparr> \<and>
   handleSearch_settle (Responded True None) st =
     st\<lparr>error := Some ''Search failed. Please try again.'', isSearching := False\<rparr>"
  by (simp add: handleSearch_def handleSearch_begin_def catch_block_def finally_block_def)

subsection \<open>The URL is pushed without scrolling\<close>

text \<open>
  C4 says that a search updates the location without scrolling and without adding an entry
  to the navigation history. Line 101 calls \<^verbatim>\<open>router.push\<close> with \<^verbatim>\<open>scroll: false\<close>:
  the viewport stays, but \<^verbatim>\<open>push\<close> to a URL other than the one shown adds an entry. From
  a history holding the entry \<^verbatim>\<open>/\<close> alone, a search for \<^verbatim>\<open>foo\<close> gives a history of two.
\<close>

theorem handleSearch_start_history_counterexample:
  "length (history (router
     (\<lparr>state = initial_state, searchParams = [],
       router = \<lparr>history = [''/''], scrollY = 120\<rparr>,
       pending = [], nextCall = 0\<rparr> :: unit page))) = 1 \<and>
   history (router (handleSearch_start
     \<lparr>query = ''foo'', domain = None, tag = None, year = None, region = None\<rparr>
     (\<lparr>state = initial_state, searchParams = [],
       router = \<lparr>history = [''/''], scrollY = 120\<rparr>,
       pending = [], nextCall = 0\<rparr> :: unit page))) = [''/?term=foo'', ''/'']"
  by (simp add: handleSearch_start_def router_push_def handleSearch_params_def spread_field_def
      urlencode_def urlencode_byte_def urlencode_keeps_def)

text \<open>
  C4, amended: every call of \<^verbatim>\<open>handleSearch\<close> makes \<^verbatim>\<open>/?\<close> followed by the query string the
  current location and leaves the scroll position of the viewport as it was. It adds no
  entry to the navigation history when that URL is the one already shown; when the URL
  differs, one entry is added on top of the existing ones.
\<close>

theorem handleSearch_start_router:
  "hd (history (router (handleSearch_start c p))) = ''/?'' @ toString (handleSearch_params c) \<and>
   scrollY (router (handleSearch_start c p)) = scrollY (router p) \<and>
   history (router (handleSearch_start c p)) =
     (if history (router p) \<noteq> [] \<and>
         hd (history (router p)) = ''/?'' @ toString (handleSearch_params c)
      then history (router p)
      else (''/?'' @ toString (handleSearch_params c)) # history (router p))"
proof (intro conjI)
  show "hd (history (router (handleSearch_start c p))) =
      ''/?'' @ toString (handleSearch_params c)"
    by (simp only: router_handleSearch_start hd_history_router_push)
  show "scrollY (router (handleSearch_start c p)) = scrollY (router p)"
    by (simp only: router_handleSearch_start scrollY_router_push if_False)
  show "history (router (handleSearch_start c p)) =
     (if history (router p) \<noteq> [] \<and>
         hd (history (router p)) = ''/?'' @ toString (handleSearch_params c)
      then history (router p)
      else (''/?'' @ toString (handleSearch_params c)) # history (router p))"
    by (simp only: router_handleSearch_start history_router_push)
qed

theorem handleSearch_start_router_witness:
  "router (handleSearch_start
     \<lparr>query = ''foo'', domain = None, tag = None, year = None, region = None\<rparr>
     (\<lparr>state = initial_state, searchParams = [(''term'', ''foo'')],
       router = \<lparr>history = [''/?term=foo'', ''/''], scrollY = 120\<rparr>,
       pending = [], nextCall = 0\<rparr> :: unit page)) =
     \<lparr>history = [''/?term=foo'', ''/''], scrollY = 120\<rparr> \<and>
   router (handleSearch_start
     \<lparr>query = ''bar'', domain = None, tag = None, year = None, region = None\<rparr>
     (\<lparr>state = initial_state, searchParams = [(''term'', ''foo'')],
       router = \<lparr>history = [''/?term=foo'', ''/''], scrollY = 120\<rparr>,
       pending = [], nextCall = 0\<rparr> :: unit page)) =
     \<lparr>history = [''/?term=bar'', ''/?term=foo'', ''/''], scrollY = 120\<rparr>"
  using handleSearch_start_router
    [of "\<lparr>query = ''foo'', domain = None, tag = None, year = None, region = None\<rparr>"
        "\<lparr>state = initial_state, searchParams = [(''term'', ''foo'')],
          router = \<lparr>history = [''/?term=foo'', ''/''], scrollY = 120\<rparr>,
          pending = [], nextCall = 0\<rparr> :: unit page"]
    handleSearch_start_router
    [of "\<lparr>query = ''bar'', domain = None, tag = None, year = None, region = None\<rparr>"
        "\<lparr>state = initial_state, searchParams = [(''term'', ''foo'')],
          router = \<lparr>history = [''/?term=foo'', ''/''], scrollY = 120\<rparr>,
          pending = [], nextCall = 0\<rparr> :: unit page"]
  by (simp add: handleSearch_start_def router_push_def handleSearch_params_def spread_field_def
      urlencode_def urlencode_byte_def urlencode_keeps_def)

subsection \<open>The effect searches when a recognised parameter is non-empty\<close>

text \<open>
  C5 says that a search is triggered whenever one of \<^verbatim>\<open>term\<close>, \<^verbatim>\<open>domain\<close>, \<^verbatim>\<open>tag\<close>,
  \<^verbatim>\<open>year\<close>, \<^verbatim>\<open>region\<close> is present in the URL. The guards of lines 52-56 and 68 test
  truthiness, so a parameter that is present with an empty value does not count: on the
  URL \<^verbatim>\<open>/?term=\<close> the parameter is there, and mounting the page searches nothing.
\<close>

theorem useEffect_empty_term_counterexample:
  "searchParams_get [(''term'', '''')] ''term'' = Some '''' \<and>
   useEffect_searchParams [(''term'', '''')] = None \<and>
   mount [(''term'', '''')] \<lparr>history = [''/?term=''], scrollY = 0\<rparr> =
     (\<lparr>state = initial_state, searchParams = [(''term'', '''')],
       router = \<lparr>history = [''/?term=''], scrollY = 0\<rparr>,
       pending = [], nextCall = 0\<rparr> :: unit page)"
  by (simp add: searchParams_get_def useEffect_searchParams_def hasSearchParams_def mount_def
      run_effect_def)

text \<open>
  C5, amended: on mount and on every change of the query parameters, a search is triggered
  exactly when at least one of the five recognised parameters has a non-empty value. Its
  text is the value of \<^verbatim>\<open>term\<close> (empty when \<^verbatim>\<open>term\<close> is absent), and each of
  \<^verbatim>\<open>domain\<close>, \<^verbatim>\<open>tag\<close>, \<^verbatim>\<open>year\<close>, \<^verbatim>\<open>region\<close> is passed exactly when it has a non-empty
  value, with that value. When no recognised parameter has a non-empty value, nothing is
  searched and the state is left as it is.
\<close>

theorem useEffect_searchParams_triggers:
  "(useEffect_searchParams sp \<noteq> None \<longleftrightarrow>
      (\<exists>n \<in> {''term'', ''domain'', ''tag'', ''year'', ''region''}.
         \<exists>v. searchParams_get sp n = Some v \<and> v \<noteq> [])) \<and>
   (\<forall>c. useEffect_searchParams sp = Some c \<longrightarrow>
      query c = (case searchParams_get sp ''term'' of None \<Rightarrow> [] | Some v \<Rightarrow> v) \<and>
      (\<forall>v. domain c = Some v \<longleftrightarrow> searchParams_get sp ''domain'' = Some v \<and> v \<noteq> []) \<and>
      (\<forall>v. tag c = Some v \<longleftrightarrow> searchParams_get sp ''tag'' = Some v \<and> v \<noteq> []) \<and>
      (\<forall>v. year c = Some v \<longleftrightarrow> searchParams_get sp ''year'' = Some v \<and> v \<noteq> []) \<and>
      (\<forall>v. region c = Some v \<longleftrightarrow> searchParams_get sp ''region'' = Some v \<and> v \<noteq> [])) \<and>
   step p (ParamsChanged sp) =
     Some (case useEffect_searchParams sp of
             None \<Rightarrow> p\<lparr>searchParams := sp\<rparr>
           | Some c \<Rightarrow> handleSearch_start c (p\<lparr>searchParams := sp\<rparr>)) \<and>
   mount sp b =
     (case useEffect_searchParams sp of
        None \<Rightarrow> \<lparr>state = initial_state, searchParams = sp, router = b,
                  pending = [], nextCall = 0\<rparr>
      | Some c \<Rightarrow> handleSearch_start c
                  \<lparr>state = initial_state, searchParams = sp, router = b,
                   pending = [], nextCall = 0\<rparr>)"
proof -
  have trig: "useEffect_searchParams sp \<noteq> None \<longleftrightarrow>
      (\<exists>n \<in> {''term'', ''domain'', ''tag'', ''year'', ''region''}.
         \<exists>v. searchParams_get sp n = Some v \<and> v \<noteq> [])"
    by (simp add: useEffect_searchParams_None_iff hasSearchParams_iff)
  have crit: "\<forall>c. useEffect_searchParams sp = Some c \<longrightarrow>
      query c = (case searchParams_get sp ''term'' of None \<Rightarrow> [] | Some v \<Rightarrow> v) \<and>
      (\<forall>v. domain c = Some v \<longleftrightarrow> searchParams_get sp ''domain'' = Some v \<and> v \<noteq> []) \<and>
      (\<forall>v. tag c = Some v \<longleftrightarrow> searchParams_get sp ''tag'' = Some v \<and> v \<noteq> []) \<and>
      (\<forall>v. year c = Some v \<longleftrightarrow> searchParams_get sp ''year'' = Some v \<and> v \<noteq> []) \<and>
      (\<forall>v. region c = Some v \<longleftrightarrow> searchParams_get sp ''region'' = Some v \<and> v \<noteq> [])"
  proof (intro allI impI)
    fix c
    assume c: "useEffect_searchParams sp = Some c"
    then have "hasSearchParams sp"
      using useEffect_searchParams_None_iff [of sp] by auto
    from useEffect_searchParams_Some [OF this] c
    have "c = \<lparr>query = or_empty (searchParams_get sp ''term''),
           domain = or_undefined (searchParams_get sp ''domain''),
           tag = or_undefined (searchParams_get sp ''tag''),
           year = or_undefined (searchParams_get sp ''year''),
           region = or_undefined (searchParams_get sp ''region'')\<rparr>"
      by simp
    then show "query c = (case searchParams_get sp ''term'' of None \<Rightarrow> [] | Some v \<Rightarrow> v) \<and>
      (\<forall>v. domain c = Some v \<longleftrightarrow> searchParams_get sp ''domain'' = Some v \<and> v \<noteq> []) \<and>
      (\<forall>v. tag c = Some v \<longleftrightarrow> searchParams_get sp ''tag'' = Some v \<and> v \<noteq> []) \<and>
      (\<forall>v. year c = Some v \<longleftrightarrow> searchParams_get sp ''year'' = Some v \<and> v \<noteq> []) \<and>
      (\<forall>v. region c = Some v \<longleftrightarrow> searchParams_get sp ''region'' = Some v \<and> v \<noteq> [])"
      by (simp add: or_empty_eq or_undefined_Some_iff)
  qed
  have chg: "step p (ParamsChanged sp) =
     Some (case useEffect_searchParams sp of
             None \<Rightarrow> p\<lparr>searchParams := sp\<rparr>
           | Some c \<Rightarrow> handleSearch_start c (p\<lparr>searchParams := sp\<rparr>))"
    by (simp add: run_effect_def)
  have mnt: "mount sp b =
     (case useEffect_searchParams sp of
        None \<Rightarrow> \<lparr>state = initial_state, searchParams = sp, router = b,
                  pending = [], nextCall = 0\<rparr>
      | Some c \<Rightarrow> handleSearch_start c
                  \<lparr>state = initial_state, searchParams = sp, router = b,
                   pending = [], nextCall = 0\<rparr>)"
    by (simp add: mount_def run_effect_def)
  from trig crit chg mnt show ?thesis by blast
qed

theorem useEffect_searchParams_triggers_witness:
  "useEffect_searchParams [(''term'', ''foo''), (''year'', ''2020'')] =
     Some \<lparr>query = ''foo'', domain = None, tag = None, year = Some ''2020'', region = None\<rparr> \<and>
   searchParams_get [(''term'', ''foo''), (''year'', ''2020'')] ''term'' = Some ''foo'' \<and>
   searchParams_get [(''term'', ''foo''), (''year'', ''2020'')] ''year'' = Some ''2020'' \<and>
   searchParams_get [(''term'', ''foo''), (''year'', ''2020'')] ''domain'' = None"
  using useEffect_searchParams_triggers [of "[(''term'', ''foo''), (''year'', ''2020'')]"]
  by (simp add: useEffect_searchParams_def hasSearchParams_def performInitialSearch_def
      searchParams_get_def or_empty_def or_undefined_def)

subsection \<open>The centred layout\<close>

text \<open>
  C6 says that the centred layout is shown exactly when no search has been performed and
  none of the recognised parameters is present in the URL. Line 117 tests
  \<^verbatim>\<open>hasSearchParams()\<close>, which is false for a parameter with an empty value: on
  \<^verbatim>\<open>/?term=\<close>, before any search, the parameter is present and the layout is centred.
\<close>

theorem showCenteredSearch_empty_term_counterexample:
  "searchParams_get [(''term'', '''')] ''term'' = Some '''' \<and>
   hasSearched (initial_state :: unit SearchState) = False \<and>
   showCenteredSearch (initial_state :: unit SearchState) [(''term'', '''')] = True \<and>
   searchSection_className (initial_state :: unit SearchState) [(''term'', '''')] =
     ''w-full flex flex-col justify-center''"
  by (simp add: searchParams_get_def showCenteredSearch_def hasSearchParams_def
      initial_state_def searchSection_className_def)

text \<open>
  C6, amended: the centred layout is shown exactly when \<^verbatim>\<open>hasSearched\<close> is false and none of
  the five recognised parameters has a non-empty value in the URL (each is absent or
  empty); in every other state the compact layout is shown.
\<close>

theorem showCenteredSearch_iff:
  "(showCenteredSearch st sp \<longleftrightarrow>
      \<not> hasSearched st \<and>
      (\<forall>n \<in> {''term'', ''domain'', ''tag'', ''year'', ''region''}.
         searchParams_get sp n = None \<or> searchParams_get sp n = Some [])) \<and>
   searchSection_className st sp =
     (if showCenteredSearch st sp then ''w-full flex flex-col justify-center''
      else ''w-full pt-8'')"
proof
  show "showCenteredSearch st sp \<longleftrightarrow>
      \<not> hasSearched st \<and>
      (\<forall>n \<in> {''term'', ''domain'', ''tag'', ''year'', ''region''}.
         searchParams_get sp n = None \<or> searchParams_get sp n = Some [])"
    by (simp add: showCenteredSearch_def hasSearchParams_def falsy_iff)
  show "searchSection_className st sp =
     (if showCenteredSearch st sp then ''w-full flex flex-col justify-center''
      else ''w-full pt-8'')"
    by (cases "showCenteredSearch st sp") (simp_all add: searchSection_className_def)
qed

theorem showCenteredSearch_iff_witness:
  "showCenteredSearch (initial_state :: unit SearchState) [(''term'', ''''), (''page'', ''2'')]"
  by (rule iffD2 [OF conjunct1 [OF showCenteredSearch_iff]])
     (simp add: initial_state_def searchParams_get_def)

subsection \<open>The introduction and the post list\<close>

text \<open>
  C7 says, among other things, that \<^verbatim>\<open>IntroSection\<close> and \<^verbatim>\<open>PostList\<close> are hidden only
  while non-empty results are displayed or a search is in progress. Line 182 looks at the
  results held in the state, while the panel that displays them is rendered only under
  the condition of line 173. After a search with an empty text the URL is \<^verbatim>\<open>/?term=\<close>;
  once its response has stored a non-empty list, nothing is pending, the panel is not
  rendered, and the introduction and the posts are hidden all the same.
\<close>

theorem showIntroAndPosts_hidden_counterexample:
  "(case exec (mount [] \<lparr>history = [''/''], scrollY = 0\<rparr> :: nat page)
        [OnSearch \<lparr>query = '''', domain = None, tag = None, year = None, region = None\<rparr>,
         ParamsChanged [(''term'', '''')],
         Settled 0 (Responded True (Some [1]))] of
      None \<Rightarrow> False
    | Some p \<Rightarrow>
        pending p = [] \<and> isSearching (state p) = False \<and> results (state p) = [1] \<and>
        showSearchResults (searchParams p) = False \<and>
        showIntroAndPosts (state p) (searchParams p) = False)"
  by (simp add: mount_def run_effect_def useEffect_searchParams_def hasSearchParams_def
      searchParams_get_def handleSearch_start_def handleSearch_begin_def Let_def
      finally_block_def initial_state_def showSearchResults_def showIntroAndPosts_def
      showCenteredSearch_def)

text \<open>
  C7, amended: \<^verbatim>\<open>IntroSection\<close> and \<^verbatim>\<open>PostList\<close> are rendered exactly when the centred
  layout is active or the results are empty and \<^verbatim>\<open>isSearching\<close> is false. In particular they
  are rendered once a search has resolved with an empty list (in whatever state the
  response finds the component), and when they are hidden the results held in the state
  are non-empty or \<^verbatim>\<open>isSearching\<close> is true, whether or not the results panel is rendered.
\<close>

theorem showIntroAndPosts_iff:
  "(showIntroAndPosts st sp \<longleftrightarrow>
      showCenteredSearch st sp \<or> (results st = [] \<and> \<not> isSearching st)) \<and>
   showIntroAndPosts (handleSearch_settle (Responded True (Some [])) st) sp \<and>
   showIntroAndPosts (handleSearch (Responded True (Some [])) st) sp \<and>
   (\<not> showIntroAndPosts st sp \<longrightarrow> results st \<noteq> [] \<or> isSearching st)"
  by (auto simp add: showIntroAndPosts_def handleSearch_def handleSearch_begin_def
      finally_block_def)

theorem showIntroAndPosts_iff_witness:
  "\<not> showIntroAndPosts
       \<lparr>isSearching = False, error = None, results = [()], hasSearched = True\<rparr>
       [(''term'', ''foo'')] \<and>
   results \<lparr>isSearching = False, error = None, results = [()], hasSearched = True\<rparr> \<noteq> [] \<and>
   showIntroAndPosts
       \<lparr>isSearching = False, error = None, results = ([] :: unit list), hasSearched = True\<rparr>
       [(''term'', ''foo'')]"
  using showIntroAndPosts_iff
      [of "\<lparr>isSearching = False, error = None, results = [()], hasSearched = True\<rparr>"
          "[(''term'', ''foo'')]"]
    showIntroAndPosts_iff
      [of "\<lparr>isSearching = False, error = None, results = ([] :: unit list), hasSearched = True\<rparr>"
          "[(''term'', ''foo'')]"]
  by (simp add: showCenteredSearch_def)

subsection \<open>hasSearched is set once and for all\<close>

text \<open>
  C8: \<^verbatim>\<open>hasSearched\<close> is false when the page loads, every call of \<^verbatim>\<open>handleSearch\<close> sets it
  to true, and once it is true it stays true through every sequence of events of the page:
  searches from the form, changes of the query parameters, and settlements of pending
  calls with any outcome.
\<close>

theorem hasSearched_never_reverts:
  "\<not> hasSearched (initial_state :: 'r SearchState) \<and>
   hasSearched (state (handleSearch_start c (p :: 'r page))) \<and>
   (\<forall>evs p'. hasSearched (state p) \<and> exec p evs = Some p' \<longrightarrow> hasSearched (state p'))"
  using exec_keeps_hasSearched [of p]
  by (auto simp add: initial_state_def handleSearch_start_def handleSearch_begin_def Let_def)

theorem hasSearched_never_reverts_witness:
  "hasSearched (state (handleSearch_start
      \<lparr>query = ''foo'', domain = None, tag = None, year = None, region = None\<rparr>
      (mount [] \<lparr>history = [''/''], scrollY = 0\<rparr> :: unit page))) \<and>
   (case exec (handleSearch_start
          \<lparr>query = ''foo'', domain = None, tag = None, year = None, region = None\<rparr>
          (mount [] \<lparr>history = [''/''], scrollY = 0\<rparr> :: unit page))
        [Settled 0 Rejected, ParamsChanged [(''term'', '''')], ParamsChanged []] of
      None \<Rightarrow> False
    | Some p' \<Rightarrow> hasSearched (state p') \<and> pending p' = [])"
  using hasSearched_never_reverts
    [of "\<lparr>query = ''foo'', domain = None, tag = None, year = None, region = None\<rparr>"
        "handleSearch_start
          \<lparr>query = ''foo'', domain = None, tag = None, year = None, region = None\<rparr>
          (mount [] \<lparr>history = [''/''], scrollY = 0\<rparr> :: unit page)"]
  by (simp add: mount_def run_effect_def useEffect_searchParams_def hasSearchParams_def
      searchParams_get_def handleSearch_start_def handleSearch_begin_def Let_def
      catch_block_def finally_block_def)

subsection \<open>Overlapping calls do not leave the loading flag set\<close>

text \<open>
  C9: calls of \<^verbatim>\<open>handleSearch\<close> may overlap, a second one starting while the first is
  pending, and settle in any order. Whatever the events of the page since it was mounted,
  once no call is pending any more \<^verbatim>\<open>isSearching\<close> is false.
\<close>

theorem all_settled_not_searching:
  "exec (mount sp b) evs = Some p \<Longrightarrow> pending p = [] \<Longrightarrow> \<not> isSearching (state p)"
  using exec_searching [of "mount sp b" evs p] mount_searching [of sp b] by blast

theorem all_settled_not_searching_witness:
  "(case exec (mount [] \<lparr>history = [''/''], scrollY = 0\<rparr> :: unit page)
        [OnSearch \<lparr>query = ''a'', domain = None, tag = None, year = None, region = None\<rparr>,
         OnSearch \<lparr>query = ''b'', domain = None, tag = None, year = None, region = None\<rparr>,
         Settled 0 (Responded True (Some [()])), Settled 1 Rejected] of
      None \<Rightarrow> False
    | Some p \<Rightarrow> pending p = [] \<and> \<not> isSearching (state p)) \<and>
   (case exec (mount [] \<lparr>history = [''/''], scrollY = 0\<rparr> :: unit page)
        [OnSearch \<lparr>query = ''a'', domain = None, tag = None, year = None, region = None\<rparr>,
         OnSearch \<lparr>query = ''b'', domain = None, tag = None, year = None, region = None\<rparr>,
         Settled 1 Rejected, Settled 0 (Responded True (Some [()]))] of
      None \<Rightarrow> False
    | Some p \<Rightarrow> pending p = [] \<and> \<not> isSearching (state p))"
proof -
  let ?a = "\<lparr>query = ''a'', domain = None, tag = None, year = None, region = None\<rparr>"
  let ?b = "\<lparr>query = ''b'', domain = None, tag = None, year = None, region = None\<rparr>"
  let ?m = "mount [] \<lparr>history = [''/''], scrollY = 0\<rparr> :: unit page"
  let ?e1 = "[OnSearch ?a, OnSearch ?b, Settled 0 (Responded True (Some [()])), Settled 1 Rejected]"
  let ?e2 = "[OnSearch ?a, OnSearch ?b, Settled 1 Rejected, Settled 0 (Responded True (Some [()]))]"
  obtain p1 where p1: "exec ?m ?e1 = Some p1" and n1: "pending p1 = []"
    by (simp add: mount_def run_effect_def useEffect_searchParams_def hasSearchParams_def
        searchParams_get_def handleSearch_start_def Let_def)
  obtain p2 where p2: "exec ?m ?e2 = Some p2" and n2: "pending p2 = []"
    by (simp add: mount_def run_effect_def useEffect_searchParams_def hasSearchParams_def
        searchParams_get_def handleSearch_start_def Let_def)
  from all_settled_not_searching [OF p1 n1] all_settled_not_searching [OF p2 n2] p1 n1 p2 n2
  show ?thesis by simp
qed

subsection \<open>The results panel\<close>

text \<open>
  C10 says that the results panel is rendered exactly when one of the five recognised
  parameters is present in the URL. Line 173 tests \<^verbatim>\<open>hasSearchParams()\<close>: with
  \<^verbatim>\<open>/?term=&year=\<close> two of them are present, both empty, and the panel is not rendered.
\<close>

theorem showSearchResults_empty_values_counterexample:
  "searchParams_get [(''term'', ''''), (''year'', '''')] ''term'' = Some '''' \<and>
   searchParams_get [(''term'', ''''), (''year'', '''')] ''year'' = Some '''' \<and>
   showSearchResults [(''term'', ''''), (''year'', '''')] = False"
  by (simp add: searchParams_get_def showSearchResults_def hasSearchParams_def)

text \<open>
  C10, amended: the results panel is rendered if and only if at least one of the five
  recognised parameters has a non-empty value in the URL. The condition reads the URL
  only: \<^verbatim>\<open>hasSearched\<close>, \<^verbatim>\<open>results\<close>, \<^verbatim>\<open>error\<close> and \<^verbatim>\<open>isSearching\<close> play no part in it.
\<close>

theorem showSearchResults_iff:
  "showSearchResults sp \<longleftrightarrow>
     (\<exists>n \<in> {''term'', ''domain'', ''tag'', ''year'', ''region''}.
        \<exists>v. searchParams_get sp n = Some v \<and> v \<noteq> [])"
  unfolding showSearchResults_def by (rule hasSearchParams_iff)

theorem showSearchResults_iff_witness:
  "showSearchResults [(''page'', ''2''), (''region'', ''eu'')] \<and>
   searchParams_get [(''page'', ''2''), (''region'', ''eu'')] ''region'' = Some ''eu'' \<and>
   \<not> showSearchResults [(''page'', ''2'')]"
  using showSearchResults_iff [of "[(''page'', ''2''), (''region'', ''eu'')]"]
    showSearchResults_iff [of "[(''page'', ''2'')]"]
  by (simp add: searchParams_get_def)

end
